theory Spec2Isabelle
  imports Complex_Main "HOL-Library.Word"
begin

section \<open>Strings\<close>

text \<open>
  A JavaScript string is a sequence of 16-bit code units. String literals of the source
  are written \<open>lit ''...''\<close>.
\<close>

type_synonym jsstring = "16 word list"

definition lit :: "string \<Rightarrow> jsstring" where
  "lit s = map of_char s"

text \<open>
  \<open>String.prototype.trim\<close> removes leading and trailing WhiteSpace and LineTerminator
  code points: TAB, VT, FF, SP, NBSP, ZWNBSP, the category Zs (U+1680, U+2000 to U+200A,
  U+202F, U+205F, U+3000), and LF, CR, U+2028, U+2029. All of them are single code units.
\<close>

definition is_whitespace :: "16 word \<Rightarrow> bool" where
  "is_whitespace c =
     (c \<in> set [0x9, 0xB, 0xC, 0x20, 0xA0, 0xFEFF, 0x1680, 0x202F, 0x205F, 0x3000,
                0xA, 0xD, 0x2028, 0x2029]
      \<or> (0x2000 \<le> c \<and> c \<le> 0x200A))"

definition trim :: "jsstring \<Rightarrow> jsstring" where
  "trim s = rev (dropWhile is_whitespace (rev (dropWhile is_whitespace s)))"

text \<open>
  \<open>v || null\<close> and \<open>v || ''\<close> on a string or null: the empty string and null are
  falsy, every other string is truthy.
\<close>

definition or_null :: "jsstring \<Rightarrow> jsstring option" where
  "or_null v = (if v = [] then None else Some v)"

definition or_empty :: "jsstring option \<Rightarrow> jsstring" where
  "or_empty v = (case v of None \<Rightarrow> [] | Some w \<Rightarrow> w)"

section \<open>Tasks and the component state\<close>

text \<open>
  The task object \<open>{ id, text, completed, category, dueDate, dueTime }\<close>. The id is the
  integral number of milliseconds returned by \<open>Date.now()\<close>; \<open>dueDate\<close> and \<open>dueTime\<close> are
  a string or null.
\<close>

record task =
  task_id :: int
  task_text :: jsstring
  completed :: bool
  category :: jsstring
  dueDate :: "jsstring option"
  dueTime :: "jsstring option"

text \<open>
  The \<open>useState\<close> cells of \<open>TodoApp\<close>. The cells \<open>dueDate\<close> and \<open>dueTime\<close> of the input form
  are \<open>dueDate_input\<close> and \<open>dueTime_input\<close> here, apart from the task fields of the same
  name.
\<close>

record app_state =
  tasks :: "task list"
  newTask :: jsstring
  editingTaskId :: "int option"
  editTaskText :: jsstring
  editDueDate :: jsstring
  editDueTime :: jsstring
  selectedCategory :: jsstring
  dueDate_input :: jsstring
  dueTime_input :: jsstring
  activeFilter :: jsstring

definition initial_state :: app_state where
  "initial_state =
     \<lparr>tasks = [], newTask = [], editingTaskId = None, editTaskText = [],
      editDueDate = [], editDueTime = [], selectedCategory = lit ''Personal'',
      dueDate_input = [], dueTime_input = [], activeFilter = lit ''All''\<rparr>"

subsection \<open>Handlers\<close>

text \<open>\<open>addTask\<close>; \<open>now\<close> is the value that \<open>Date.now()\<close> returns during the call.\<close>

definition addTask :: "int \<Rightarrow> app_state \<Rightarrow> app_state" where
  "addTask now s =
     (if trim (newTask s) = [] then s
      else
        let taskToAdd =
              \<lparr>task_id = now,
               task_text = newTask s,
               completed = False,
               category = selectedCategory s,
               dueDate = or_null (dueDate_input s),
               dueTime = or_null (dueTime_input s)\<rparr>
        in s\<lparr>tasks := tasks s @ [taskToAdd],
              newTask := [],
              selectedCategory := lit ''Personal'',
              dueDate_input := [],
              dueTime_input := []\<rparr>)"

definition toggleTask :: "int \<Rightarrow> app_state \<Rightarrow> app_state" where
  "toggleTask i s =
     s\<lparr>tasks := map (\<lambda>task. if task_id task = i
                               then task\<lparr>completed := \<not> completed task\<rparr>
                               else task) (tasks s)\<rparr>"

definition deleteTask :: "int \<Rightarrow> app_state \<Rightarrow> app_state" where
  "deleteTask i s = s\<lparr>tasks := filter (\<lambda>task. task_id task \<noteq> i) (tasks s)\<rparr>"

definition startEditTask ::
  "int \<Rightarrow> jsstring \<Rightarrow> jsstring option \<Rightarrow> jsstring option \<Rightarrow> app_state \<Rightarrow> app_state" where
  "startEditTask i currentText currentDueDate currentDueTime s =
     s\<lparr>editingTaskId := Some i,
       editTaskText := currentText,
       editDueDate := or_empty currentDueDate,
       editDueTime := or_empty currentDueTime\<rparr>"

definition updateTask :: "int \<Rightarrow> app_state \<Rightarrow> app_state" where
  "updateTask i s =
     (if trim (editTaskText s) = [] then s
      else
        s\<lparr>tasks := map (\<lambda>task. if task_id task = i
                                  then task\<lparr>task_text := editTaskText s,
                                            dueDate := or_null (editDueDate s),
                                            dueTime := or_null (editDueTime s)\<rparr>
                                  else task) (tasks s),
          editingTaskId := None,
          editTaskText := [],
          editDueDate := [],
          editDueTime := []\<rparr>)"

definition cancelEdit :: "app_state \<Rightarrow> app_state" where
  "cancelEdit s =
     s\<lparr>editingTaskId := None, editTaskText := [], editDueDate := [], editDueTime := []\<rparr>"

subsection \<open>The filtered view and the badges\<close>

definition getFilteredTasks :: "app_state \<Rightarrow> task list" where
  "getFilteredTasks s =
     (if activeFilter s = lit ''All'' then tasks s
      else filter (\<lambda>task. category task = activeFilter s) (tasks s))"

text \<open>The filter buttons, and the options of the category selector.\<close>

definition filter_names :: "jsstring list" where
  "filter_names =
     map lit [''All'', ''Personal'', ''Work'', ''Shopping'', ''Health'', ''Finance'', ''Other'']"

definition categories :: "jsstring list" where
  "categories = map lit [''Personal'', ''Work'', ''Shopping'', ''Health'', ''Finance'', ''Other'']"

text \<open>
  The number shown in the badge of the filter button \<open>f\<close>: the number of tasks of that
  category, and the number of all tasks on the button \<open>All\<close>.
\<close>

definition filter_badge :: "jsstring \<Rightarrow> app_state \<Rightarrow> nat" where
  "filter_badge f s =
     (if f \<noteq> lit ''All'' then length (filter (\<lambda>t. category t = f) (tasks s))
      else length (tasks s))"

subsection \<open>Events\<close>

text \<open>
  What the user can do to the component: type into the inputs (the \<open>onChange\<close> handlers call
  the state setters), press the buttons, and pick a filter. \<open>AddTask now\<close> is a click on Add
  (or Enter in the text input) while \<open>Date.now()\<close> reads \<open>now\<close>.
\<close>

datatype event =
    SetNewTask jsstring
  | SetSelectedCategory jsstring
  | SetDueDate jsstring
  | SetDueTime jsstring
  | AddTask int
  | ToggleTask int
  | DeleteTask int
  | StartEditTask int jsstring "jsstring option" "jsstring option"
  | SetEditTaskText jsstring
  | SetEditDueDate jsstring
  | SetEditDueTime jsstring
  | UpdateTask int
  | CancelEdit
  | SetActiveFilter jsstring

fun handle :: "event \<Rightarrow> app_state \<Rightarrow> app_state" where
  "handle (SetNewTask v) s = s\<lparr>newTask := v\<rparr>"
| "handle (SetSelectedCategory v) s = s\<lparr>selectedCategory := v\<rparr>"
| "handle (SetDueDate v) s = s\<lparr>dueDate_input := v\<rparr>"
| "handle (SetDueTime v) s = s\<lparr>dueTime_input := v\<rparr>"
| "handle (AddTask now) s = addTask now s"
| "handle (ToggleTask i) s = toggleTask i s"
| "handle (DeleteTask i) s = deleteTask i s"
| "handle (StartEditTask i t d tm) s = startEditTask i t d tm s"
| "handle (SetEditTaskText v) s = s\<lparr>editTaskText := v\<rparr>"
| "handle (SetEditDueDate v) s = s\<lparr>editDueDate := v\<rparr>"
| "handle (SetEditDueTime v) s = s\<lparr>editDueTime := v\<rparr>"
| "handle (UpdateTask i) s = updateTask i s"
| "handle CancelEdit s = cancelEdit s"
| "handle (SetActiveFilter v) s = s\<lparr>activeFilter := v\<rparr>"

fun run :: "event list \<Rightarrow> app_state \<Rightarrow> app_state" where
  "run [] s = s"
| "run (e # es) s = run es (handle e s)"

definition ids :: "app_state \<Rightarrow> int set" where
  "ids s = task_id ` set (tasks s)"

section \<open>Persistence\<close>

subsection \<open>Values\<close>

text \<open>
  \<open>JSON.parse\<close> returns an arbitrary value, and the load effect hands it to \<open>setTasks\<close>
  unchecked. On the side of persistence the state cell \<open>tasks\<close> is therefore a raw value.
  A number is modelled by the exact value of its decimal literal; an object by its
  members in order.
\<close>

datatype jsval = JNull | JBool bool | JNum rat | JStr jsstring
  | JArr "jsval list" | JObj "(jsstring \<times> jsval) list"

text \<open>The raw value of a task and of a collection, properties in the order \<open>addTask\<close> creates them.\<close>

definition json_of_option :: "jsstring option \<Rightarrow> jsval" where
  "json_of_option v = (case v of None \<Rightarrow> JNull | Some w \<Rightarrow> JStr w)"

definition json_of_task :: "task \<Rightarrow> jsval" where
  "json_of_task t =
     JObj [(lit ''id'', JNum (of_int (task_id t))),
           (lit ''text'', JStr (task_text t)),
           (lit ''completed'', JBool (completed t)),
           (lit ''category'', JStr (category t)),
           (lit ''dueDate'', json_of_option (dueDate t)),
           (lit ''dueTime'', json_of_option (dueTime t))]"

definition json_of_tasks :: "task list \<Rightarrow> jsval" where
  "json_of_tasks ts = JArr (map json_of_task ts)"

subsection \<open>The two effects\<close>

text \<open>\<open>localStorage\<close>: a map from keys to strings.\<close>

type_synonym storage = "jsstring \<Rightarrow> jsstring option"

definition getItem :: "storage \<Rightarrow> jsstring \<Rightarrow> jsstring option" where
  "getItem st k = st k"

definition setItem :: "storage \<Rightarrow> jsstring \<Rightarrow> jsstring \<Rightarrow> storage" where
  "setItem st k v = st(k \<mapsto> v)"

text \<open>
  What the effects read and write besides the storage: the cell \<open>tasks\<close> as a raw value, the
  ref \<open>isFirstRender\<close>, and the lines given to \<open>console.error\<close> (message and error).
\<close>

record 'e persistence =
  tasks_value :: jsval
  isFirstRender :: bool
  console :: "(jsstring \<times> 'e) list"

definition mounted :: "'e persistence" where
  "mounted = \<lparr>tasks_value = JArr [], isFirstRender = True, console = []\<rparr>"

text \<open>
  The load effect. \<open>parse\<close> is the platform's \<open>JSON.parse\<close>, \<open>Inl\<close> the exception it throws.
  \<open>if (savedTasks)\<close> is false on null and on the empty string.
\<close>

definition load_effect ::
  "(jsstring \<Rightarrow> 'e + jsval) \<Rightarrow> storage \<Rightarrow> 'e persistence \<Rightarrow> 'e persistence" where
  "load_effect parse st m =
     (case getItem st (lit ''tasks'') of
        None \<Rightarrow> m
      | Some savedTasks \<Rightarrow>
          if savedTasks = [] then m
          else
            (case parse savedTasks of
               Inr parsedTasks \<Rightarrow> m\<lparr>tasks_value := parsedTasks\<rparr>
             | Inl error \<Rightarrow>
                 m\<lparr>console := console m @ [(lit ''Error loading tasks from localStorage:'', error)]\<rparr>))"

text \<open>The save effect. \<open>stringify\<close> is the platform's \<open>JSON.stringify\<close>.\<close>

definition save_effect ::
  "(jsval \<Rightarrow> jsstring) \<Rightarrow> 'e persistence \<Rightarrow> storage \<Rightarrow> 'e persistence \<times> storage" where
  "save_effect stringify m st =
     (if isFirstRender m then (m\<lparr>isFirstRender := False\<rparr>, st)
      else (m, setItem st (lit ''tasks'') (stringify (tasks_value m))))"

subsection \<open>A model of the platform's JSON functions\<close>

text \<open>
  \<open>JSON.parse\<close> and \<open>JSON.stringify\<close> belong to the platform, and the effects take them as
  parameters. The model below runs the effects on concrete storage contents, and it is what
  the collections of task records are written and read with. It follows the JSON grammar
  (ECMA-404) on code units. It agrees with the platform where double arithmetic is exact:
  integers below \<open>2^53\<close> (the clock readings are far below) and decimals of up to 15
  significant digits. It writes every number in decimal notation, and it keeps the members
  of an object in the order of the text (the platform enumerates keys that are array indices
  first; a task has none).
\<close>

datatype syntax_error = SyntaxError

definition is_json_ws :: "16 word \<Rightarrow> bool" where
  "is_json_ws c = (c = 0x20 \<or> c = 0x9 \<or> c = 0xA \<or> c = 0xD)"

definition skip_ws :: "jsstring \<Rightarrow> jsstring" where
  "skip_ws s = dropWhile is_json_ws s"

definition is_digit :: "16 word \<Rightarrow> bool" where
  "is_digit c = (0x30 \<le> c \<and> c \<le> 0x39)"

definition digits_val :: "jsstring \<Rightarrow> int" where
  "digits_val ds = foldl (\<lambda>n c. 10 * n + (uint c - 48)) 0 ds"

definition hex_val :: "16 word \<Rightarrow> int option" where
  "hex_val c =
     (if 0x30 \<le> c \<and> c \<le> 0x39 then Some (uint c - 48)
      else if 0x41 \<le> c \<and> c \<le> 0x46 then Some (uint c - 55)
      else if 0x61 \<le> c \<and> c \<le> 0x66 then Some (uint c - 87)
      else None)"

definition hex4 :: "16 word \<Rightarrow> 16 word \<Rightarrow> 16 word \<Rightarrow> 16 word \<Rightarrow> 16 word option" where
  "hex4 a b c d =
     (case (hex_val a, hex_val b, hex_val c, hex_val d) of
        (Some w, Some x, Some y, Some z) \<Rightarrow> Some (word_of_int (((w * 16 + x) * 16 + y) * 16 + z))
      | _ \<Rightarrow> None)"

definition unescape :: "16 word \<Rightarrow> 16 word option" where
  "unescape e =
     (if e = 0x22 then Some 0x22
      else if e = 0x5C then Some 0x5C
      else if e = 0x2F then Some 0x2F
      else if e = 0x62 then Some 0x8
      else if e = 0x66 then Some 0xC
      else if e = 0x6E then Some 0xA
      else if e = 0x72 then Some 0xD
      else if e = 0x74 then Some 0x9
      else None)"

fun parse_string_body :: "jsstring \<Rightarrow> jsstring \<Rightarrow> (jsstring \<times> jsstring) option" where
  "parse_string_body acc [] = None"
| "parse_string_body acc (c # cs) =
     (if c = 0x22 then Some (rev acc, cs)
      else if c = 0x5C then
        (case cs of
           [] \<Rightarrow> None
         | e # rest \<Rightarrow>
             if e = 0x75 then
               (case rest of
                  a # b # c' # d # rest' \<Rightarrow>
                    (case hex4 a b c' d of
                       None \<Rightarrow> None
                     | Some w \<Rightarrow> parse_string_body (w # acc) rest')
                | _ \<Rightarrow> None)
             else
               (case unescape e of
                  None \<Rightarrow> None
                | Some w \<Rightarrow> parse_string_body (w # acc) rest))
      else if c < 0x20 then None
      else parse_string_body (c # acc) cs)"

definition parse_exponent :: "jsstring \<Rightarrow> (int \<times> jsstring) option" where
  "parse_exponent s =
     (case s of
        [] \<Rightarrow> Some (0, s)
      | e # s1 \<Rightarrow>
          if e = 0x65 \<or> e = 0x45 then
            (let (neg, s2) =
                   (case s1 of
                      [] \<Rightarrow> (False, s1)
                    | g # s1' \<Rightarrow> if g = 0x2D then (True, s1')
                                  else if g = 0x2B then (False, s1') else (False, s1));
                 es = takeWhile is_digit s2
             in if es = [] then None
                else Some (if neg then - digits_val es else digits_val es,
                           dropWhile is_digit s2))
          else Some (0, s))"

definition parse_fraction :: "jsstring \<Rightarrow> (jsstring \<times> jsstring) option" where
  "parse_fraction s =
     (case s of
        [] \<Rightarrow> Some ([], s)
      | p # s1 \<Rightarrow>
          if p = 0x2E then
            (let fs = takeWhile is_digit s1
             in if fs = [] then None else Some (fs, dropWhile is_digit s1))
          else Some ([], s))"

definition scale10 :: "int \<Rightarrow> int \<Rightarrow> rat" where
  "scale10 m e = (if 0 \<le> e then of_int (m * 10 ^ nat e) else of_int m / of_int (10 ^ nat (- e)))"

definition parse_number :: "jsstring \<Rightarrow> (rat \<times> jsstring) option" where
  "parse_number s =
     (let (neg, s1) = (case s of [] \<Rightarrow> (False, s)
                       | c # cs \<Rightarrow> if c = 0x2D then (True, cs) else (False, s));
          ds = takeWhile is_digit s1
      in if ds = [] \<or> (1 < length ds \<and> hd ds = 0x30) then None
         else
           (case parse_fraction (dropWhile is_digit s1) of
              None \<Rightarrow> None
            | Some (fs, s2) \<Rightarrow>
                (case parse_exponent s2 of
                   None \<Rightarrow> None
                 | Some (e, s3) \<Rightarrow>
                     let m = digits_val (ds @ fs)
                     in Some (scale10 (if neg then - m else m) (e - int (length fs)), s3))))"

definition strip_prefix :: "jsstring \<Rightarrow> jsstring \<Rightarrow> jsstring option" where
  "strip_prefix p s = (if take (length p) s = p then Some (drop (length p) s) else None)"

fun set_member :: "jsstring \<Rightarrow> jsval \<Rightarrow> (jsstring \<times> jsval) list \<Rightarrow> (jsstring \<times> jsval) list" where
  "set_member k v [] = [(k, v)]"
| "set_member k v ((k', v') # ms) =
     (if k' = k then (k, v) # ms else (k', v') # set_member k v ms)"

fun parse_value :: "nat \<Rightarrow> jsstring \<Rightarrow> (jsval \<times> jsstring) option"
  and parse_elements :: "nat \<Rightarrow> jsval list \<Rightarrow> jsstring \<Rightarrow> (jsval \<times> jsstring) option"
  and parse_members :: "nat \<Rightarrow> (jsstring \<times> jsval) list \<Rightarrow> jsstring \<Rightarrow> (jsval \<times> jsstring) option"
where
  "parse_value 0 s = None"
| "parse_value (Suc n) s =
     (case skip_ws s of
        [] \<Rightarrow> None
      | c # cs \<Rightarrow>
          if c = 0x7B then
            (case skip_ws cs of
               [] \<Rightarrow> None
             | d # rest \<Rightarrow> if d = 0x7D then Some (JObj [], rest) else parse_members n [] cs)
          else if c = 0x5B then
            (case skip_ws cs of
               [] \<Rightarrow> None
             | d # rest \<Rightarrow> if d = 0x5D then Some (JArr [], rest) else parse_elements n [] cs)
          else if c = 0x22 then
            (case parse_string_body [] cs of
               None \<Rightarrow> None
             | Some (str, rest) \<Rightarrow> Some (JStr str, rest))
          else if c = 0x6E then map_option (Pair JNull) (strip_prefix (lit ''null'') (c # cs))
          else if c = 0x74 then map_option (Pair (JBool True)) (strip_prefix (lit ''true'') (c # cs))
          else if c = 0x66 then map_option (Pair (JBool False)) (strip_prefix (lit ''false'') (c # cs))
          else
            (case parse_number (c # cs) of
               None \<Rightarrow> None
             | Some (r, rest) \<Rightarrow> Some (JNum r, rest)))"
| "parse_elements 0 acc s = None"
| "parse_elements (Suc n) acc s =
     (case parse_value n s of
        None \<Rightarrow> None
      | Some (v, rest) \<Rightarrow>
          (case skip_ws rest of
             [] \<Rightarrow> None
           | c # rest' \<Rightarrow>
               if c = 0x2C then parse_elements n (v # acc) rest'
               else if c = 0x5D then Some (JArr (rev (v # acc)), rest')
               else None))"
| "parse_members 0 acc s = None"
| "parse_members (Suc n) acc s =
     (case skip_ws s of
        [] \<Rightarrow> None
      | q # s1 \<Rightarrow>
          if q \<noteq> 0x22 then None
          else
            (case parse_string_body [] s1 of
               None \<Rightarrow> None
             | Some (k, s2) \<Rightarrow>
                 (case skip_ws s2 of
                    [] \<Rightarrow> None
                  | colon # s3 \<Rightarrow>
                      if colon \<noteq> 0x3A then None
                      else
                        (case parse_value n s3 of
                           None \<Rightarrow> None
                         | Some (v, s4) \<Rightarrow>
                             (case skip_ws s4 of
                                [] \<Rightarrow> None
                              | c # s5 \<Rightarrow>
                                  if c = 0x2C then parse_members n (set_member k v acc) s5
                                  else if c = 0x7D then Some (JObj (set_member k v acc), s5)
                                  else None)))))"

definition JSON_parse :: "jsstring \<Rightarrow> syntax_error + jsval" where
  "JSON_parse s =
     (case parse_value (Suc (length s)) s of
        None \<Rightarrow> Inl SyntaxError
      | Some (v, rest) \<Rightarrow> if skip_ws rest = [] then Inr v else Inl SyntaxError)"

definition digit_char :: "int \<Rightarrow> 16 word" where
  "digit_char d = word_of_int (48 + d)"

function digits_of_int :: "int \<Rightarrow> jsstring" where
  "digits_of_int n =
     (if n < 10 then [digit_char n]
      else digits_of_int (n div 10) @ [digit_char (n mod 10)])"
  by pat_completeness auto
termination
  by (relation "measure nat") auto

declare digits_of_int.simps [simp del]

fun fraction_digits :: "nat \<Rightarrow> int \<Rightarrow> int \<Rightarrow> jsstring" where
  "fraction_digits 0 r d = []"
| "fraction_digits (Suc k) r d =
     (if r = 0 then []
      else digit_char ((10 * r) div d) # fraction_digits k ((10 * r) mod d) d)"

definition number_to_string :: "rat \<Rightarrow> jsstring" where
  "number_to_string x =
     (let (n, d) = quotient_of x;
          a = \<bar>n\<bar>;
          fs = fraction_digits 20 (a mod d) d
      in (if n < 0 then [0x2D] else []) @ digits_of_int (a div d)
         @ (if fs = [] then [] else 0x2E # fs))"

definition hex_digit :: "int \<Rightarrow> 16 word" where
  "hex_digit n = (if n < 10 then word_of_int (48 + n) else word_of_int (87 + n))"

definition unicode_escape :: "16 word \<Rightarrow> jsstring" where
  "unicode_escape c =
     (let n = uint c
      in [0x5C, 0x75, hex_digit (n div 4096), hex_digit (n div 256 mod 16),
          hex_digit (n div 16 mod 16), hex_digit (n mod 16)])"

definition is_high_surrogate :: "16 word \<Rightarrow> bool" where
  "is_high_surrogate c = (0xD800 \<le> c \<and> c \<le> 0xDBFF)"

definition is_low_surrogate :: "16 word \<Rightarrow> bool" where
  "is_low_surrogate c = (0xDC00 \<le> c \<and> c \<le> 0xDFFF)"

definition quote_unit :: "16 word \<Rightarrow> jsstring" where
  "quote_unit c =
     (if c = 0x8 then [0x5C, 0x62]
      else if c = 0x9 then [0x5C, 0x74]
      else if c = 0xA then [0x5C, 0x6E]
      else if c = 0xC then [0x5C, 0x66]
      else if c = 0xD then [0x5C, 0x72]
      else if c = 0x22 then [0x5C, 0x22]
      else if c = 0x5C then [0x5C, 0x5C]
      else if c < 0x20 \<or> is_high_surrogate c \<or> is_low_surrogate c then unicode_escape c
      else [c])"

fun quote_units :: "jsstring \<Rightarrow> jsstring" where
  "quote_units [] = []"
| "quote_units [c] = quote_unit c"
| "quote_units (c # d # cs) =
     (if is_high_surrogate c \<and> is_low_surrogate d then c # d # quote_units cs
      else quote_unit c @ quote_units (d # cs))"

definition quote_string :: "jsstring \<Rightarrow> jsstring" where
  "quote_string s = 0x22 # quote_units s @ [0x22]"

fun join :: "jsstring \<Rightarrow> jsstring list \<Rightarrow> jsstring" where
  "join sep [] = []"
| "join sep [x] = x"
| "join sep (x # y # ys) = x @ sep @ join sep (y # ys)"

fun JSON_stringify :: "jsval \<Rightarrow> jsstring" where
  "JSON_stringify JNull = lit ''null''"
| "JSON_stringify (JBool b) = (if b then lit ''true'' else lit ''false'')"
| "JSON_stringify (JNum x) = number_to_string x"
| "JSON_stringify (JStr s) = quote_string s"
| "JSON_stringify (JArr vs) = 0x5B # join [0x2C] (map JSON_stringify vs) @ [0x5D]"
| "JSON_stringify (JObj ms) =
     0x7B # join [0x2C] (map (\<lambda>m. quote_string (fst m) @ 0x3A # JSON_stringify (snd m)) ms) @ [0x7D]"

text \<open>
  What may follow a number in a text (anything but a digit, a point and an exponent mark),
  and what follows a value inside an array or an object.
\<close>

definition ends_number :: "jsstring \<Rightarrow> bool" where
  "ends_number rest =
     (case rest of [] \<Rightarrow> True
      | c # _ \<Rightarrow> \<not> is_digit c \<and> c \<noteq> 0x2E \<and> c \<noteq> 0x65 \<and> c \<noteq> 0x45)"

definition closes_value :: "jsstring \<Rightarrow> bool" where
  "closes_value rest = (case rest of [] \<Rightarrow> False | c # _ \<Rightarrow> c = 0x2C \<or> c = 0x7D \<or> c = 0x5D)"

section \<open>A sample session\<close>

text \<open>Three tasks are added and the second one is completed; the resulting collection.\<close>

definition sample_state :: app_state where
  "sample_state =
     run [SetNewTask (lit ''Buy milk''), SetSelectedCategory (lit ''Shopping''), AddTask 1000,
          SetNewTask (lit ''Write report''), SetSelectedCategory (lit ''Work''),
          SetDueDate (lit ''2025-12-01''), SetDueTime (lit ''09:00''), AddTask 2000,
          SetNewTask (lit ''Pay rent''), SetSelectedCategory (lit ''Finance''), AddTask 3000,
          ToggleTask 2000]
       initial_state"

definition sample_tasks :: "task list" where
  "sample_tasks =
     [\<lparr>task_id = 1000, task_text = lit ''Buy milk'', completed = False,
       category = lit ''Shopping'', dueDate = None, dueTime = None\<rparr>,
      \<lparr>task_id = 2000, task_text = lit ''Write report'', completed = True,
       category = lit ''Work'', dueDate = Some (lit ''2025-12-01''),
       dueTime = Some (lit ''09:00'')\<rparr>,
      \<lparr>task_id = 3000, task_text = lit ''Pay rent'', completed = False,
       category = lit ''Finance'', dueDate = None, dueTime = None\<rparr>]"

text \<open>
  The text that \<open>JSON.stringify\<close> writes for the sample collection, and a text for its
  first task as another program might have written it.
\<close>

definition sample_text :: jsstring where
  \<open>sample_text = lit ''[{"id":1000,"text":"Buy milk","completed":false,"category":"Shopping","dueDate":null,"dueTime":null},{"id":2000,"text":"Write report","completed":true,"category":"Work","dueDate":"2025-12-01","dueTime":"09:00"},{"id":3000,"text":"Pay rent","completed":false,"category":"Finance","dueDate":null,"dueTime":null}]''\<close>

definition sample_text_spaced :: jsstring where
  \<open>sample_text_spaced = lit '' [ {"id": 1000, "text": "Buy milk", "completed": false, "category": "Shopping", "dueDate": null, "dueTime": null} ] ''\<close>

section \<open>Shared facts\<close>

lemma lit_All_not_category: "C \<in> set categories \<Longrightarrow> C \<noteq> lit ''All''"
  by (auto simp: categories_def lit_def)

lemma map_absent_unchanged:
  "\<forall>t \<in> set xs. \<not> P t \<Longrightarrow> map (\<lambda>t. if P t then f t else t) xs = xs"
  by (induction xs) auto

lemma toggle_absent: "i \<notin> ids s \<Longrightarrow> toggleTask i s = s"
proof -
  assume a: "i \<notin> ids s"
  then have "\<forall>t \<in> set (tasks s). \<not> task_id t = i"
    by (auto simp: ids_def)
  then have "map (\<lambda>task. if task_id task = i then task\<lparr>completed := \<not> completed task\<rparr> else task)
          (tasks s) = tasks s"
    by (rule map_absent_unchanged)
  then show ?thesis by (simp add: toggleTask_def)
qed

lemma update_absent: "i \<notin> ids s \<Longrightarrow> tasks (updateTask i s) = tasks s"
proof -
  assume a: "i \<notin> ids s"
  then have "\<forall>t \<in> set (tasks s). \<not> task_id t = i"
    by (auto simp: ids_def)
  then have "map (\<lambda>task. if task_id task = i
                     then task\<lparr>task_text := editTaskText s, dueDate := or_null (editDueDate s),
                               dueTime := or_null (editDueTime s)\<rparr>
                     else task) (tasks s) = tasks s"
    by (rule map_absent_unchanged)
  then show ?thesis by (simp add: updateTask_def)
qed


subsection \<open>The sample session, evaluated\<close>

lemma trim_eval:
  "trim (lit ''Buy milk'') \<noteq> []" "trim (lit ''Write report'') \<noteq> []"
  "trim (lit ''Pay rent'') \<noteq> []" "trim (lit ''Buy oat milk'') \<noteq> []"
  "trim (lit '' '') = []"
  by (simp_all add: trim_def is_whitespace_def lit_def)

lemma sample_state_tasks: "tasks sample_state = sample_tasks"
  by (simp add: sample_state_def sample_tasks_def initial_state_def addTask_def toggleTask_def
      trim_eval or_null_def Let_def) (simp add: lit_def)

lemma sample_state_eq:
  "sample_state =
     \<lparr>tasks = sample_tasks, newTask = [], editingTaskId = None, editTaskText = [],
      editDueDate = [], editDueTime = [], selectedCategory = lit ''Personal'',
      dueDate_input = [], dueTime_input = [], activeFilter = lit ''All''\<rparr>"
  by (simp add: sample_state_def sample_tasks_def initial_state_def addTask_def toggleTask_def
      trim_eval or_null_def Let_def) (simp add: lit_def)

lemma sample_ids: "ids sample_state = {1000, 2000, 3000}"
  by (auto simp: ids_def sample_state_tasks sample_tasks_def)

lemma category_members:
  "lit ''Work'' \<in> set categories" "lit ''Finance'' \<in> set categories"
  by (simp_all add: categories_def)

section \<open>Adding a task\<close>

text \<open>
  C3. \<open>addTask\<close> leaves the collection as it is when the text is empty after trimming.
  Otherwise it appends exactly one task at the end, the tasks before it unchanged and in
  their order: the new task has the clock reading as its id, is not completed, carries the
  text as typed (not trimmed), the selected category, and a due date and a due time that are
  null when the input is the empty string and the input otherwise.
\<close>

theorem addTask_appends_one:
  "(trim (newTask s) = [] \<longrightarrow> tasks (addTask now s) = tasks s) \<and>
   (trim (newTask s) \<noteq> [] \<longrightarrow>
      (\<exists>t. tasks (addTask now s) = tasks s @ [t] \<and>
           task_id t = now \<and>
           completed t = False \<and>
           task_text t = newTask s \<and>
           category t = selectedCategory s \<and>
           dueDate t = (if dueDate_input s = [] then None else Some (dueDate_input s)) \<and>
           dueTime t = (if dueTime_input s = [] then None else Some (dueTime_input s))))"
  by (simp add: addTask_def Let_def or_null_def)

theorem addTask_appends_one_witness:
  "trim (newTask (initial_state\<lparr>newTask := lit ''   ''\<rparr>)) = [] \<and>
   tasks (addTask 1700000000000 (initial_state\<lparr>newTask := lit ''   ''\<rparr>)) = [] \<and>
   trim (newTask (initial_state\<lparr>newTask := lit '' Buy milk '', dueDate_input := lit ''2025-12-01''\<rparr>)) \<noteq> [] \<and>
   (\<exists>t. tasks (addTask 1700000000000
               (initial_state\<lparr>newTask := lit '' Buy milk '', dueDate_input := lit ''2025-12-01''\<rparr>)) = [t] \<and>
        task_id t = 1700000000000 \<and>
        completed t = False \<and>
        task_text t = lit '' Buy milk '' \<and>
        category t = lit ''Personal'' \<and>
        dueDate t = Some (lit ''2025-12-01'') \<and>
        dueTime t = None)"
  using addTask_appends_one [of "initial_state\<lparr>newTask := lit ''   ''\<rparr>" 1700000000000]
    addTask_appends_one [of "initial_state\<lparr>newTask := lit '' Buy milk '',
                                             dueDate_input := lit ''2025-12-01''\<rparr>" 1700000000000]
  by (simp add: initial_state_def trim_def is_whitespace_def lit_def)

section \<open>Editing a task\<close>

text \<open>
  C4. \<open>updateTask\<close> leaves the collection as it is when the edit text is empty after
  trimming. Otherwise the collection keeps its length and order; every task whose id
  matches gets the edit text (as typed), the edit due date and the edit due time (null for
  the empty string) and keeps its id, category and completion flag; every other task is
  unchanged. When no task has the id the collection is unchanged.
\<close>

theorem updateTask_frame:
  "(trim (editTaskText s) = [] \<longrightarrow> tasks (updateTask i s) = tasks s) \<and>
   (trim (editTaskText s) \<noteq> [] \<longrightarrow>
      length (tasks (updateTask i s)) = length (tasks s) \<and>
      (\<forall>k < length (tasks s).
         (task_id (tasks s ! k) = i \<longrightarrow>
            task_text (tasks (updateTask i s) ! k) = editTaskText s \<and>
            dueDate (tasks (updateTask i s) ! k) =
              (if editDueDate s = [] then None else Some (editDueDate s)) \<and>
            dueTime (tasks (updateTask i s) ! k) =
              (if editDueTime s = [] then None else Some (editDueTime s)) \<and>
            category (tasks (updateTask i s) ! k) = category (tasks s ! k) \<and>
            completed (tasks (updateTask i s) ! k) = completed (tasks s ! k) \<and>
            task_id (tasks (updateTask i s) ! k) = task_id (tasks s ! k)) \<and>
         (task_id (tasks s ! k) \<noteq> i \<longrightarrow> tasks (updateTask i s) ! k = tasks s ! k))) \<and>
   (i \<notin> ids s \<longrightarrow> tasks (updateTask i s) = tasks s)"
proof (intro conjI impI)
  assume "trim (editTaskText s) = []"
  then show "tasks (updateTask i s) = tasks s"
    by (simp add: updateTask_def)
next
  assume "trim (editTaskText s) \<noteq> []"
  then show "length (tasks (updateTask i s)) = length (tasks s)"
    by (simp add: updateTask_def)
next
  assume "trim (editTaskText s) \<noteq> []"
  then show "\<forall>k < length (tasks s).
         (task_id (tasks s ! k) = i \<longrightarrow>
            task_text (tasks (updateTask i s) ! k) = editTaskText s \<and>
            dueDate (tasks (updateTask i s) ! k) =
              (if editDueDate s = [] then None else Some (editDueDate s)) \<and>
            dueTime (tasks (updateTask i s) ! k) =
              (if editDueTime s = [] then None else Some (editDueTime s)) \<and>
            category (tasks (updateTask i s) ! k) = category (tasks s ! k) \<and>
            completed (tasks (updateTask i s) ! k) = completed (tasks s ! k) \<and>
            task_id (tasks (updateTask i s) ! k) = task_id (tasks s ! k)) \<and>
         (task_id (tasks s ! k) \<noteq> i \<longrightarrow> tasks (updateTask i s) ! k = tasks s ! k)"
    by (simp add: updateTask_def or_null_def)
next
  assume "i \<notin> ids s"
  then show "tasks (updateTask i s) = tasks s"
    by (rule update_absent)
qed

theorem updateTask_frame_witness:
  "trim (editTaskText (sample_state\<lparr>editTaskText := lit '' ''\<rparr>)) = [] \<and>
   tasks (updateTask 1000 (sample_state\<lparr>editTaskText := lit '' ''\<rparr>)) = sample_tasks \<and>
   trim (editTaskText (sample_state\<lparr>editTaskText := lit ''Buy oat milk'',
                                     editDueDate := lit ''2025-12-02''\<rparr>)) \<noteq> [] \<and>
   (0::nat) < length (tasks (sample_state\<lparr>editTaskText := lit ''Buy oat milk'',
                                        editDueDate := lit ''2025-12-02''\<rparr>)) \<and>
   tasks (updateTask 1000 (sample_state\<lparr>editTaskText := lit ''Buy oat milk'',
                                        editDueDate := lit ''2025-12-02''\<rparr>)) ! 0 =
     \<lparr>task_id = 1000, task_text = lit ''Buy oat milk'', completed = False,
      category = lit ''Shopping'', dueDate = Some (lit ''2025-12-02''), dueTime = None\<rparr> \<and>
   tasks (updateTask 1000 (sample_state\<lparr>editTaskText := lit ''Buy oat milk'',
                                        editDueDate := lit ''2025-12-02''\<rparr>)) ! 1 =
     sample_tasks ! 1 \<and>
   4000 \<notin> ids (sample_state\<lparr>editTaskText := lit ''Buy oat milk''\<rparr>) \<and>
   tasks (updateTask 4000 (sample_state\<lparr>editTaskText := lit ''Buy oat milk''\<rparr>)) = sample_tasks"
proof -
  have absent: "4000 \<notin> ids (sample_state\<lparr>editTaskText := lit ''Buy oat milk''\<rparr>)"
    by (simp add: ids_def sample_state_eq sample_tasks_def)
  have blank: "trim (editTaskText (sample_state\<lparr>editTaskText := lit '' ''\<rparr>)) = []"
    by (simp add: trim_eval)
  have "tasks (updateTask 1000 (sample_state\<lparr>editTaskText := lit '' ''\<rparr>)) = sample_tasks"
    using updateTask_frame [of "sample_state\<lparr>editTaskText := lit '' ''\<rparr>" 1000] blank
    by (simp add: sample_state_tasks)
  moreover have "tasks (updateTask 4000 (sample_state\<lparr>editTaskText := lit ''Buy oat milk''\<rparr>))
      = sample_tasks"
    using updateTask_frame [of "sample_state\<lparr>editTaskText := lit ''Buy oat milk''\<rparr>" 4000] absent
    by (simp add: sample_state_tasks)
  moreover have "tasks (updateTask 1000 (sample_state\<lparr>editTaskText := lit ''Buy oat milk'',
                                        editDueDate := lit ''2025-12-02''\<rparr>))
      = [\<lparr>task_id = 1000, task_text = lit ''Buy oat milk'', completed = False,
           category = lit ''Shopping'', dueDate = Some (lit ''2025-12-02''), dueTime = None\<rparr>,
         sample_tasks ! 1, sample_tasks ! 2]"
    by (simp add: updateTask_def trim_eval sample_state_eq or_null_def)
       (simp add: sample_tasks_def lit_def or_null_def)
  ultimately show ?thesis
    using absent blank by (simp add: trim_eval sample_state_tasks) (simp add: sample_tasks_def)
qed

section \<open>Toggling completion\<close>

text \<open>
  C5. \<open>toggleTask\<close> keeps the length and order of the collection; every task whose id
  matches has its completion flag negated and its id, text, category, due date and due time
  unchanged; every other task is unchanged. When no task has the id, the state is unchanged.
\<close>

theorem toggleTask_frame:
  "length (tasks (toggleTask i s)) = length (tasks s) \<and>
   (\<forall>k < length (tasks s).
      (task_id (tasks s ! k) = i \<longrightarrow>
         tasks (toggleTask i s) ! k = (tasks s ! k)\<lparr>completed := \<not> completed (tasks s ! k)\<rparr> \<and>
         completed (tasks (toggleTask i s) ! k) = (\<not> completed (tasks s ! k)) \<and>
         task_id (tasks (toggleTask i s) ! k) = task_id (tasks s ! k) \<and>
         task_text (tasks (toggleTask i s) ! k) = task_text (tasks s ! k) \<and>
         category (tasks (toggleTask i s) ! k) = category (tasks s ! k) \<and>
         dueDate (tasks (toggleTask i s) ! k) = dueDate (tasks s ! k) \<and>
         dueTime (tasks (toggleTask i s) ! k) = dueTime (tasks s ! k)) \<and>
      (task_id (tasks s ! k) \<noteq> i \<longrightarrow> tasks (toggleTask i s) ! k = tasks s ! k)) \<and>
   (i \<notin> ids s \<longrightarrow> toggleTask i s = s)"
proof (intro conjI impI)
  show "length (tasks (toggleTask i s)) = length (tasks s)"
    by (simp add: toggleTask_def)
next
  show "\<forall>k < length (tasks s).
      (task_id (tasks s ! k) = i \<longrightarrow>
         tasks (toggleTask i s) ! k = (tasks s ! k)\<lparr>completed := \<not> completed (tasks s ! k)\<rparr> \<and>
         completed (tasks (toggleTask i s) ! k) = (\<not> completed (tasks s ! k)) \<and>
         task_id (tasks (toggleTask i s) ! k) = task_id (tasks s ! k) \<and>
         task_text (tasks (toggleTask i s) ! k) = task_text (tasks s ! k) \<and>
         category (tasks (toggleTask i s) ! k) = category (tasks s ! k) \<and>
         dueDate (tasks (toggleTask i s) ! k) = dueDate (tasks s ! k) \<and>
         dueTime (tasks (toggleTask i s) ! k) = dueTime (tasks s ! k)) \<and>
      (task_id (tasks s ! k) \<noteq> i \<longrightarrow> tasks (toggleTask i s) ! k = tasks s ! k)"
    by (simp add: toggleTask_def)
next
  assume "i \<notin> ids s"
  then show "toggleTask i s = s"
    by (rule toggle_absent)
qed

theorem toggleTask_frame_witness:
  "(1::nat) < length (tasks sample_state) \<and>
   task_id (tasks sample_state ! 1) = 2000 \<and>
   completed (tasks sample_state ! 1) \<and>
   \<not> completed (tasks (toggleTask 2000 sample_state) ! 1) \<and>
   task_text (tasks (toggleTask 2000 sample_state) ! 1) = lit ''Write report'' \<and>
   task_id (tasks sample_state ! 0) \<noteq> 2000 \<and>
   tasks (toggleTask 2000 sample_state) ! 0 = sample_tasks ! 0 \<and>
   4000 \<notin> ids sample_state \<and>
   toggleTask 4000 sample_state = sample_state"
  using toggleTask_frame [of 2000 sample_state] toggleTask_frame [of 4000 sample_state]
  by (simp add: sample_state_tasks sample_ids) (simp add: sample_tasks_def)

lemma toggle_twice_tasks:
  "map (\<lambda>task. if task_id task = i then task\<lparr>completed := \<not> completed task\<rparr> else task)
     (map (\<lambda>task. if task_id task = i then task\<lparr>completed := \<not> completed task\<rparr> else task) xs)
   = xs"
  by (induction xs) auto

text \<open>
  C6. Toggling the same id twice gives back the state, so every task, and each task with
  that id in particular, has its original completion flag.
\<close>

theorem toggleTask_involution:
  "toggleTask i (toggleTask i s) = s \<and>
   (\<forall>k < length (tasks s).
      task_id (tasks s ! k) = i \<longrightarrow>
        completed (tasks (toggleTask i s) ! k) = (\<not> completed (tasks s ! k)) \<and>
        completed (tasks (toggleTask i (toggleTask i s)) ! k) = completed (tasks s ! k))"
proof -
  have twice: "toggleTask i (toggleTask i s) = s"
    by (simp add: toggleTask_def toggle_twice_tasks del: map_map)
  have once: "\<forall>k < length (tasks s).
      task_id (tasks s ! k) = i \<longrightarrow>
        completed (tasks (toggleTask i s) ! k) = (\<not> completed (tasks s ! k))"
    by (simp add: toggleTask_def)
  from twice once show ?thesis by simp
qed

theorem toggleTask_involution_witness:
  "(0::nat) < length (tasks sample_state) \<and>
   task_id (tasks sample_state ! 0) = 1000 \<and>
   \<not> completed (tasks sample_state ! 0) \<and>
   completed (tasks (toggleTask 1000 sample_state) ! 0) \<and>
   \<not> completed (tasks (toggleTask 1000 (toggleTask 1000 sample_state)) ! 0) \<and>
   toggleTask 1000 (toggleTask 1000 sample_state) = sample_state"
  using toggleTask_involution [of 1000 sample_state]
  by (simp add: sample_state_tasks) (simp add: sample_tasks_def)

section \<open>The filtered view\<close>

text \<open>
  C8. With the filter \<open>All\<close> the view is the whole collection, in its order. With a category
  as the filter it is exactly the tasks of that category, in their original order. The view
  is a value computed from the state; the state is not changed.
\<close>

theorem getFilteredTasks_spec:
  "getFilteredTasks (s\<lparr>activeFilter := lit ''All''\<rparr>) = tasks s \<and>
   (\<forall>C \<in> set categories.
      getFilteredTasks (s\<lparr>activeFilter := C\<rparr>) = filter (\<lambda>t. category t = C) (tasks s)) \<and>
   (\<forall>C. C \<noteq> lit ''All'' \<longrightarrow>
      getFilteredTasks (s\<lparr>activeFilter := C\<rparr>) = filter (\<lambda>t. category t = C) (tasks s))"
  using lit_All_not_category by (simp add: getFilteredTasks_def)

theorem getFilteredTasks_spec_witness:
  "lit ''Work'' \<in> set categories \<and>
   getFilteredTasks (sample_state\<lparr>activeFilter := lit ''Work''\<rparr>) = [sample_tasks ! 1] \<and>
   getFilteredTasks (sample_state\<lparr>activeFilter := lit ''All''\<rparr>) = sample_tasks"
  using getFilteredTasks_spec [of sample_state]
  by (simp add: sample_state_tasks categories_def) (simp add: sample_tasks_def lit_def)

text \<open>
  C10. On every filter button the badge shows the length of the view that the button
  selects; for a category this is the number of tasks of that category.
\<close>

theorem badge_matches_view:
  "filter_badge f s = length (getFilteredTasks (s\<lparr>activeFilter := f\<rparr>)) \<and>
   (\<forall>C \<in> set categories.
      filter_badge C s = length (filter (\<lambda>t. category t = C) (tasks s)) \<and>
      length (getFilteredTasks (s\<lparr>activeFilter := C\<rparr>)) =
        length (filter (\<lambda>t. category t = C) (tasks s)))"
  using lit_All_not_category by (simp add: filter_badge_def getFilteredTasks_def)

theorem badge_matches_view_witness:
  "lit ''Finance'' \<in> set categories \<and>
   filter_badge (lit ''Finance'') sample_state = 1 \<and>
   length (getFilteredTasks (sample_state\<lparr>activeFilter := lit ''Finance''\<rparr>)) = 1 \<and>
   filter_badge (lit ''All'') sample_state = 3"
proof -
  have "length (filter (\<lambda>t. category t = lit ''Finance'') (tasks sample_state)) = 1"
    by (simp add: sample_state_tasks sample_tasks_def lit_def)
  moreover have "length (getFilteredTasks (sample_state\<lparr>activeFilter := lit ''All''\<rparr>)) = 3"
    by (simp add: getFilteredTasks_def sample_state_tasks sample_tasks_def)
  ultimately show ?thesis
    using badge_matches_view [of "lit ''Finance''" sample_state]
      badge_matches_view [of "lit ''All''" sample_state] category_members(2)
    by (simp del: set_map)
qed

section \<open>Identifiers\<close>

lemma toggle_keeps_ids: "map task_id (tasks (toggleTask i s)) = map task_id (tasks s)"
  by (simp add: toggleTask_def comp_def if_distrib cong: if_cong)

lemma update_keeps_ids: "map task_id (tasks (updateTask i s)) = map task_id (tasks s)"
  by (simp add: updateTask_def comp_def if_distrib cong: if_cong)



lemma delete_keeps_distinct:
  "distinct (map task_id (tasks s)) \<Longrightarrow> distinct (map task_id (tasks (deleteTask i s)))"
  by (simp add: deleteTask_def distinct_map_filter)

lemma add_keeps_distinct:
  "distinct (map task_id (tasks s)) \<Longrightarrow> now \<notin> ids s \<Longrightarrow>
   distinct (map task_id (tasks (addTask now s)))"
  by (simp add: addTask_def Let_def ids_def)

lemma handle_keeps_distinct:
  assumes "distinct (map task_id (tasks s))" and "\<forall>now. e = AddTask now \<longrightarrow> now \<notin> ids s"
  shows "distinct (map task_id (tasks (handle e s)))"
proof (cases e)
  case (AddTask now)
  with assms show ?thesis by (simp add: add_keeps_distinct)
next
  case (ToggleTask j)
  with assms show ?thesis by (simp add: toggle_keeps_ids del: distinct_map)
next
  case (DeleteTask j)
  with assms show ?thesis by (simp add: delete_keeps_distinct del: distinct_map)
next
  case (UpdateTask j)
  with assms show ?thesis by (simp add: update_keeps_ids del: distinct_map)
qed (insert assms, simp_all add: startEditTask_def cancelEdit_def)

text \<open>
  C1. The id of a new task is the clock reading. Two tasks added while the clock shows the
  same millisecond get the same id: after typing \<open>a\<close>, Add, typing \<open>b\<close>, Add, both at
  reading 1000, the collection holds two tasks with id 1000.
\<close>

theorem addTask_same_reading_duplicates_id:
  "map task_id (tasks (run [SetNewTask (lit ''a''), AddTask 1000,
                             SetNewTask (lit ''b''), AddTask 1000] initial_state)) = [1000, 1000] \<and>
   \<not> distinct (map task_id (tasks (run [SetNewTask (lit ''a''), AddTask 1000,
                                          SetNewTask (lit ''b''), AddTask 1000] initial_state)))"
  by (simp add: initial_state_def addTask_def trim_def is_whitespace_def lit_def Let_def)

section \<open>Deleting a task\<close>







section \<open>Loading\<close>

text \<open>
  The four ways through the load effect. With no value under the key, or with the empty
  string there, it changes nothing. When \<open>JSON.parse\<close> throws, the error goes to
  \<open>console.error\<close> and the collection stays empty. When \<open>JSON.parse\<close> returns a value, the
  value is handed to \<open>setTasks\<close>; no line of the effect looks at it.
\<close>

lemma load_effect_cases:
  "tasks_value (mounted :: 'e persistence) = JArr [] \<and>
   console (mounted :: 'e persistence) = [] \<and>
   (getItem st (lit ''tasks'') = None \<longrightarrow> load_effect parse st mounted = mounted) \<and>
   (getItem st (lit ''tasks'') = Some [] \<longrightarrow> load_effect parse st mounted = mounted) \<and>
   (\<forall>saved err. getItem st (lit ''tasks'') = Some saved \<and> saved \<noteq> [] \<and> parse saved = Inl err \<longrightarrow>
      tasks_value (load_effect parse st mounted) = JArr [] \<and>
      console (load_effect parse st mounted) =
        [(lit ''Error loading tasks from localStorage:'', err :: 'e)]) \<and>
   (\<forall>saved v. getItem st (lit ''tasks'') = Some saved \<and> saved \<noteq> [] \<and> parse saved = Inr v \<longrightarrow>
      tasks_value (load_effect parse st mounted) = v \<and>
      console (load_effect parse st mounted) = [])"
  by (simp add: load_effect_def mounted_def)

text \<open>
  C2. A stored value that is not a sequence of task records has to end in an empty
  collection and a report. The load effect does so only when \<open>JSON.parse\<close> throws. On the
  stored text \<open>42\<close>, which is JSON but no collection, it reports nothing and the cell
  \<open>tasks\<close> becomes the number 42.
\<close>

theorem load_adopts_non_collection:
  "tasks_value (load_effect JSON_parse (setItem Map.empty (lit ''tasks'') (lit ''42'')) mounted)
     = JNum 42 \<and>
   console (load_effect JSON_parse (setItem Map.empty (lit ''tasks'') (lit ''42'')) mounted) = []"
proof -
  have "JSON_parse (lit ''42'') = Inr (JNum 42)"
    by code_simp
  then show ?thesis
    by (simp add: load_effect_def mounted_def getItem_def setItem_def) (simp add: lit_def)
qed

lemma load_effect_cases_examples:
  "getItem Map.empty (lit ''tasks'') = None \<and>
   load_effect JSON_parse Map.empty mounted = mounted \<and>
   getItem (setItem Map.empty (lit ''tasks'') (lit ''[{'')) (lit ''tasks'') = Some (lit ''[{'') \<and>
   lit ''[{'' \<noteq> [] \<and> JSON_parse (lit ''[{'') = Inl SyntaxError \<and>
   tasks_value (load_effect JSON_parse (setItem Map.empty (lit ''tasks'') (lit ''[{'')) mounted)
     = JArr [] \<and>
   console (load_effect JSON_parse (setItem Map.empty (lit ''tasks'') (lit ''[{'')) mounted)
     = [(lit ''Error loading tasks from localStorage:'', SyntaxError)] \<and>
   getItem (setItem Map.empty (lit ''tasks'') (lit ''[ ]'')) (lit ''tasks'') = Some (lit ''[ ]'') \<and>
   lit ''[ ]'' \<noteq> [] \<and> JSON_parse (lit ''[ ]'') = Inr (JArr []) \<and>
   tasks_value (load_effect JSON_parse (setItem Map.empty (lit ''tasks'') (lit ''[ ]'')) mounted)
     = JArr []"
proof -
  have bad: "JSON_parse (lit ''[{'') = Inl SyntaxError"
    by code_simp
  have good: "JSON_parse (lit ''[ ]'') = Inr (JArr [])"
    by code_simp
  have stored: "getItem (setItem Map.empty (lit ''tasks'') x) (lit ''tasks'') = Some x" for x
    by (simp add: getItem_def setItem_def)
  have nonempty: "lit ''[{'' \<noteq> []" "lit ''[ ]'' \<noteq> []"
    by (simp_all add: lit_def)
  have none: "getItem Map.empty (lit ''tasks'') = None"
    by (simp add: getItem_def)
  from load_effect_cases [of Map.empty JSON_parse] none
  have "load_effect JSON_parse Map.empty mounted = mounted"
    by blast
  moreover
  from load_effect_cases [of "setItem Map.empty (lit ''tasks'') (lit ''[{'')" JSON_parse]
    stored nonempty(1) bad
  have "tasks_value (load_effect JSON_parse (setItem Map.empty (lit ''tasks'') (lit ''[{''))
          mounted) = JArr [] \<and>
        console (load_effect JSON_parse (setItem Map.empty (lit ''tasks'') (lit ''[{'')) mounted)
          = [(lit ''Error loading tasks from localStorage:'', SyntaxError)]"
    by blast
  moreover
  from load_effect_cases [of "setItem Map.empty (lit ''tasks'') (lit ''[ ]'')" JSON_parse]
    stored nonempty(2) good
  have "tasks_value (load_effect JSON_parse (setItem Map.empty (lit ''tasks'') (lit ''[ ]''))
          mounted) = JArr []"
    by blast
  ultimately show ?thesis
    using bad good stored nonempty none by simp
qed

section \<open>The model of the platform reads back the collections it writes\<close>

subsection \<open>Numbers\<close>

lemma digit_cases:
  "0 \<le> d \<Longrightarrow> d < 10 \<Longrightarrow>
   d = 0 \<or> d = 1 \<or> d = 2 \<or> d = 3 \<or> d = 4 \<or> d = 5 \<or> d = 6 \<or> d = 7 \<or> d = 8 \<or> d = (9::int)"
  by arith

lemma digit_word: "0 \<le> d \<Longrightarrow> d < 10 \<Longrightarrow> is_digit (digit_char d)"
  using digit_cases [of d] by (auto simp: is_digit_def digit_char_def)

lemma digit_word_val: "0 \<le> d \<Longrightarrow> d < 10 \<Longrightarrow> uint (digit_char d) - 48 = d"
  using digit_cases [of d] by (auto simp: digit_char_def)

lemma digit_word_zero: "0 \<le> d \<Longrightarrow> d < 10 \<Longrightarrow> digit_char d = 0x30 \<longleftrightarrow> d = 0"
  using digit_cases [of d] by (auto simp: digit_char_def)

lemma digits_all: "0 \<le> a \<Longrightarrow> \<forall>c \<in> set (digits_of_int a). is_digit c"
proof (induction a rule: digits_of_int.induct)
  case (1 n)
  show ?case
  proof (cases "n < 10")
    case True
    with "1.prems" show ?thesis
      by (subst digits_of_int.simps) (simp add: digit_word)
  next
    case False
    then have "0 \<le> n div 10" by simp
    with 1 False have ih: "\<forall>c \<in> set (digits_of_int (n div 10)). is_digit c" by simp
    have "is_digit (digit_char (n mod 10))"
      by (rule digit_word) simp_all
    with ih False show ?thesis
      by (subst digits_of_int.simps) simp
  qed
qed

lemma digits_nonempty: "digits_of_int a \<noteq> []"
  by (subst digits_of_int.simps) simp

lemma digits_val_snoc: "digits_val (xs @ [c]) = 10 * digits_val xs + (uint c - 48)"
  by (simp add: digits_val_def)

lemma digits_val_digits: "0 \<le> a \<Longrightarrow> digits_val (digits_of_int a) = a"
proof (induction a rule: digits_of_int.induct)
  case (1 n)
  show ?case
  proof (cases "n < 10")
    case True
    with "1.prems" show ?thesis
      by (subst digits_of_int.simps) (simp add: digits_val_def digit_word_val)
  next
    case False
    then have "0 \<le> n div 10" by simp
    with 1 False have ih: "digits_val (digits_of_int (n div 10)) = n div 10" by simp
    have "uint (digit_char (n mod 10)) - 48 = n mod 10"
      by (rule digit_word_val) simp_all
    with ih False show ?thesis
      by (subst digits_of_int.simps) (simp add: digits_val_snoc)
  qed
qed

lemma digits_head: "0 < a \<Longrightarrow> hd (digits_of_int a) \<noteq> 0x30"
proof (induction a rule: digits_of_int.induct)
  case (1 n)
  show ?case
  proof (cases "n < 10")
    case True
    with "1.prems" show ?thesis
      by (subst digits_of_int.simps) (simp add: digit_word_zero)
  next
    case False
    then have "0 < n div 10" by simp
    with 1 False have "hd (digits_of_int (n div 10)) \<noteq> 0x30" by simp
    with False show ?thesis
      by (subst digits_of_int.simps) (simp add: digits_nonempty)
  qed
qed

lemma digits_no_leading_zero:
  "0 \<le> a \<Longrightarrow> \<not> (1 < length (digits_of_int a) \<and> hd (digits_of_int a) = 0x30)"
proof (cases "a = 0")
  case True
  then show ?thesis by (subst digits_of_int.simps) simp
next
  case False
  assume "0 \<le> a"
  with False have "0 < a" by simp
  then show ?thesis using digits_head by blast
qed

lemma fraction_digits_zero: "fraction_digits k 0 d = []"
  by (cases k) simp_all

lemma number_to_string_int:
  "number_to_string (of_int n) = (if n < 0 then [0x2D] else []) @ digits_of_int \<bar>n\<bar>"
  by (simp add: number_to_string_def fraction_digits_zero)

lemma span_digits:
  "\<forall>c \<in> set ds. is_digit c \<Longrightarrow> ends_number rest \<Longrightarrow>
   takeWhile is_digit (ds @ rest) = ds \<and> dropWhile is_digit (ds @ rest) = rest"
  by (cases rest) (auto simp: ends_number_def takeWhile_append2 dropWhile_append2
      takeWhile_eq_Nil_iff dropWhile_eq_self_iff)

lemma digits_not_minus: "0 \<le> a \<Longrightarrow> hd (digits_of_int a) \<noteq> 0x2D"
proof -
  assume "0 \<le> a"
  then have "is_digit (hd (digits_of_int a))"
    using digits_all digits_nonempty by (metis list.set_sel(1))
  then show ?thesis by (auto simp: is_digit_def)
qed

lemma parse_number_int:
  assumes "ends_number rest"
  shows "parse_number (number_to_string (of_int n) @ rest) = Some (of_int n, rest)"
proof -
  define ds where "ds = digits_of_int \<bar>n\<bar>"
  have nonneg: "0 \<le> \<bar>n\<bar>" by simp
  have all: "\<forall>c \<in> set ds. is_digit c"
    unfolding ds_def using nonneg by (rule digits_all)
  have ne: "ds \<noteq> []"
    unfolding ds_def by (rule digits_nonempty)
  have lead: "\<not> (1 < length ds \<and> hd ds = 0x30)"
    unfolding ds_def using nonneg by (rule digits_no_leading_zero)
  have val: "digits_val ds = \<bar>n\<bar>"
    unfolding ds_def using nonneg by (rule digits_val_digits)
  have nm: "hd ds \<noteq> 0x2D"
    unfolding ds_def using nonneg by (rule digits_not_minus)
  have span: "takeWhile is_digit (ds @ rest) = ds" "dropWhile is_digit (ds @ rest) = rest"
    using span_digits [OF all assms] by simp_all
  have frac: "parse_fraction rest = Some ([], rest)"
    using assms by (cases rest) (auto simp: parse_fraction_def ends_number_def)
  have expo: "parse_exponent rest = Some (0, rest)"
    using assms by (cases rest) (auto simp: parse_exponent_def ends_number_def)
  obtain d ds' where dsd: "ds = d # ds'" using ne by (cases ds) auto
  with nm have dm: "d \<noteq> 0x2D" by simp
  show ?thesis
  proof (cases "n < 0")
    case True
    then have "number_to_string (of_int n) @ rest = 0x2D # ds @ rest"
      by (simp add: number_to_string_int ds_def)
    then show ?thesis
      using True span frac expo ne lead val
      by (simp add: parse_number_def scale10_def)
  next
    case False
    then have "number_to_string (of_int n) @ rest = ds @ rest"
      by (simp add: number_to_string_int ds_def)
    then show ?thesis
      using False span frac expo ne lead val dsd dm
      by (simp add: parse_number_def scale10_def)
  qed
qed

subsection \<open>Strings\<close>

lemma escapes_read_back: "JSON_parse (JSON_stringify (JStr [0x1F, 0xD800, 0x41, 0xDFFF, 0x0, 0xD83D, 0xDE00, 0x22, 0x5C, 0xA])) = Inr (JStr [0x1F, 0xD800, 0x41, 0xDFFF, 0x0, 0xD83D, 0xDE00, 0x22, 0x5C, 0xA])"
  by code_simp

lemma escapes_written: "JSON_stringify (JStr [0x1F, 0xD800, 0xD83D, 0xDE00]) = [0x22] @ [0x5C] @ lit ''u001f'' @ [0x5C] @ lit ''ud800'' @ [0xD83D, 0xDE00, 0x22]"
  by code_simp

lemma hex_val_digit_table: "\<forall>n \<in> set [0..15]. hex_val (hex_digit n) = Some n"
  by code_simp

lemma hex_val_digit: "0 \<le> n \<Longrightarrow> n < 16 \<Longrightarrow> hex_val (hex_digit n) = Some n"
  using hex_val_digit_table by simp

lemma nibbles_compose:
  "((n div 4096 * 16 + n div 256 mod 16) * 16 + n div 16 mod 16) * 16 + n mod 16 = (n::int)"
proof -
  have "n div (16 * 16) = n div 16 div 16"
    by (rule zdiv_zmult2_eq) simp
  then have a: "n div 256 = n div 16 div 16" by simp
  have "n div (256 * 16) = n div 256 div 16"
    by (rule zdiv_zmult2_eq) simp
  then have b: "n div 4096 = n div 16 div 16 div 16" using a by simp
  have "n div 16 div 16 div 16 * 16 + n div 16 div 16 mod 16 = n div 16 div 16"
    by (rule div_mult_mod_eq)
  moreover have "n div 16 div 16 * 16 + n div 16 mod 16 = n div 16"
    by (rule div_mult_mod_eq)
  moreover have "n div 16 * 16 + n mod 16 = n"
    by (rule div_mult_mod_eq)
  ultimately show ?thesis
    unfolding a b by simp
qed

lemma hex4_escape:
  "hex4 (hex_digit (uint c div 4096)) (hex_digit (uint c div 256 mod 16))
        (hex_digit (uint c div 16 mod 16)) (hex_digit (uint c mod 16)) = Some c"
proof -
  have bound: "0 \<le> uint c" "uint c < 65536"
    using uint_bounded [of c] by simp_all
  have top: "0 \<le> uint c div 4096" "uint c div 4096 < 16"
    using bound by (simp_all add: pos_imp_zdiv_nonneg_iff)
  have "hex_val (hex_digit (uint c div 4096)) = Some (uint c div 4096)"
    using top by (rule hex_val_digit)
  moreover have "hex_val (hex_digit (uint c div 256 mod 16)) = Some (uint c div 256 mod 16)"
    by (rule hex_val_digit) simp_all
  moreover have "hex_val (hex_digit (uint c div 16 mod 16)) = Some (uint c div 16 mod 16)"
    by (rule hex_val_digit) simp_all
  moreover have "hex_val (hex_digit (uint c mod 16)) = Some (uint c mod 16)"
    by (rule hex_val_digit) simp_all
  ultimately show ?thesis
    using nibbles_compose [of "uint c"] by (simp add: hex4_def)
qed

lemma parse_unicode_escape:
  "parse_string_body acc (unicode_escape c @ tail) = parse_string_body (c # acc) tail"
  by (simp add: unicode_escape_def Let_def hex4_escape)

lemma parse_quoted_unit:
  "parse_string_body acc (quote_unit c @ tail) = parse_string_body (c # acc) tail"
  by (simp add: quote_unit_def parse_unicode_escape unescape_def)

lemma surrogate_raw:
  "is_high_surrogate c \<or> is_low_surrogate c \<Longrightarrow>
   parse_string_body acc (c # tail) = parse_string_body (c # acc) tail"
proof -
  assume "is_high_surrogate c \<or> is_low_surrogate c"
  then have "0xD800 \<le> c \<or> 0xDC00 \<le> c"
    by (auto simp: is_high_surrogate_def is_low_surrogate_def)
  then have "55296 \<le> unat c"
    by (auto simp: word_le_nat_alt)
  then have "c \<noteq> 0x22" "c \<noteq> 0x5C" "\<not> c < 0x20"
    by (auto simp: word_less_nat_alt)
  then show ?thesis by simp
qed

lemma parse_quoted_units:
  "parse_string_body acc (quote_units s @ 0x22 # rest) = Some (rev acc @ s, rest)"
proof (induction s arbitrary: acc rule: quote_units.induct)
  case 1
  show ?case by simp
next
  case (2 c)
  show ?case by (simp add: parse_quoted_unit)
next
  case (3 c d cs)
  show ?case
  proof (cases "is_high_surrogate c \<and> is_low_surrogate d")
    case True
    then have q: "quote_units (c # d # cs) = c # d # quote_units cs"
      by simp
    have "parse_string_body acc (c # d # quote_units cs @ 0x22 # rest)
        = parse_string_body (d # c # acc) (quote_units cs @ 0x22 # rest)"
      using True surrogate_raw [of c acc] surrogate_raw [of d "c # acc"] by presburger
    also have "\<dots> = Some (rev (d # c # acc) @ cs, rest)"
      using True by (rule 3(1))
    finally show ?thesis
      unfolding q by (simp del: parse_string_body.simps)
  next
    case False
    then have q: "quote_units (c # d # cs) = quote_unit c @ quote_units (d # cs)"
      by (subst quote_units.simps(3)) (simp only: if_False)
    have "parse_string_body acc (quote_unit c @ quote_units (d # cs) @ 0x22 # rest)
        = parse_string_body (c # acc) (quote_units (d # cs) @ 0x22 # rest)"
      by (rule parse_quoted_unit)
    also have "\<dots> = Some (rev (c # acc) @ d # cs, rest)"
      using False by (rule 3(2))
    finally show ?thesis
      unfolding q by (simp del: parse_string_body.simps quote_units.simps)
  qed
qed

lemma parse_quoted_string:
  "parse_string_body [] (tl (quote_string s) @ rest) = Some (s, rest)"
  using parse_quoted_units [of "[]" s rest] by (simp add: quote_string_def)

subsection \<open>Values\<close>

lemma closes_ends_number: "closes_value rest \<Longrightarrow> ends_number rest"
  by (cases rest) (auto simp: closes_value_def ends_number_def is_digit_def)

lemma skip_ws_non_ws: "\<not> is_json_ws c \<Longrightarrow> skip_ws (c # cs) = c # cs"
  by (simp add: skip_ws_def)

lemma skip_ws_closes: "closes_value rest \<Longrightarrow> skip_ws rest = rest"
  by (cases rest) (auto simp: closes_value_def skip_ws_def is_json_ws_def)

lemma quote_string_Cons: "quote_string s = 0x22 # tl (quote_string s)"
  by (simp add: quote_string_def)

lemma parse_value_string:
  "parse_value (Suc n) (quote_string s @ rest) = Some (JStr s, rest)"
proof -
  have "parse_value (Suc n) (0x22 # tl (quote_string s) @ rest) = Some (JStr s, rest)"
    by (simp add: skip_ws_def is_json_ws_def parse_quoted_string del: parse_string_body.simps)
  then show ?thesis
    by (subst quote_string_Cons) simp
qed

lemma parse_value_null: "parse_value (Suc n) (lit ''null'' @ rest) = Some (JNull, rest)"
  by (simp add: lit_def skip_ws_def is_json_ws_def strip_prefix_def)

lemma parse_value_true: "parse_value (Suc n) (lit ''true'' @ rest) = Some (JBool True, rest)"
  by (simp add: lit_def skip_ws_def is_json_ws_def strip_prefix_def)

lemma parse_value_false: "parse_value (Suc n) (lit ''false'' @ rest) = Some (JBool False, rest)"
  by (simp add: lit_def skip_ws_def is_json_ws_def strip_prefix_def)

lemma number_head:
  "\<exists>c cs. number_to_string (of_int i) = c # cs \<and> (c = 0x2D \<or> is_digit c)"
proof (cases "i < 0")
  case True
  then show ?thesis by (simp add: number_to_string_int)
next
  case False
  have "0 \<le> \<bar>i\<bar>" by simp
  then have all: "\<forall>c \<in> set (digits_of_int \<bar>i\<bar>). is_digit c" by (rule digits_all)
  obtain c cs where "digits_of_int \<bar>i\<bar> = c # cs"
    using digits_nonempty [of "\<bar>i\<bar>"] by (cases "digits_of_int \<bar>i\<bar>") auto
  with all False show ?thesis by (simp add: number_to_string_int)
qed

lemma parse_value_number:
  assumes "closes_value rest"
  shows "parse_value (Suc n) (number_to_string (of_int i) @ rest) = Some (JNum (of_int i), rest)"
proof -
  obtain c cs where shape: "number_to_string (of_int i) = c # cs" and first: "c = 0x2D \<or> is_digit c"
    using number_head by blast
  from first have plain: "\<not> is_json_ws c" "c \<noteq> 0x7B" "c \<noteq> 0x5B" "c \<noteq> 0x22"
    "c \<noteq> 0x6E" "c \<noteq> 0x74" "c \<noteq> 0x66"
    by (auto simp: is_digit_def is_json_ws_def)
  have "parse_number (c # cs @ rest) = Some (of_int i, rest)"
    using parse_number_int [OF closes_ends_number [OF assms], of i] shape by simp
  then have "parse_value (Suc n) (c # cs @ rest) = Some (JNum (of_int i), rest)"
    using plain by (simp add: skip_ws_def)
  then show ?thesis by (simp add: shape)
qed

lemma parse_value_option:
  "parse_value (Suc n) (JSON_stringify (json_of_option v) @ rest) = Some (json_of_option v, rest)"
proof (cases v)
  case None
  then show ?thesis by (simp add: json_of_option_def parse_value_null del: parse_value.simps)
next
  case (Some w)
  then show ?thesis by (simp add: json_of_option_def parse_value_string del: parse_value.simps)
qed

lemma parse_value_bool:
  "parse_value (Suc n) (JSON_stringify (JBool b) @ rest) = Some (JBool b, rest)"
  by (cases b) (simp_all add: parse_value_true parse_value_false del: parse_value.simps)

subsection \<open>Objects\<close>

lemma parse_member:
  assumes "parse_value n (vtext @ c # s5) = Some (v, c # s5)"
    and "c = 0x2C \<or> c = 0x7D"
  shows "parse_members (Suc n) acc (quote_string k @ 0x3A # vtext @ c # s5) =
         (if c = 0x2C then parse_members n (set_member k v acc) s5
          else Some (JObj (set_member k v acc), s5))"
proof -
  have key: "parse_string_body [] (tl (quote_string k) @ 0x3A # vtext @ c # s5)
      = Some (k, 0x3A # vtext @ c # s5)"
    by (rule parse_quoted_string)
  have ws: "skip_ws (c # s5) = c # s5"
    using assms(2) by (auto simp: skip_ws_def is_json_ws_def)
  have "parse_members (Suc n) acc (0x22 # tl (quote_string k) @ 0x3A # vtext @ c # s5) =
         (if c = 0x2C then parse_members n (set_member k v acc) s5
          else Some (JObj (set_member k v acc), s5))"
    using assms key ws
    by (auto simp add: skip_ws_def is_json_ws_def simp del: parse_string_body.simps)
  then show ?thesis
    by (subst quote_string_Cons) simp
qed

lemma parse_value_object_open:
  "parse_value (Suc n) (0x7B # quote_string k @ tail) = parse_members n [] (quote_string k @ tail)"
proof -
  have "parse_value (Suc n) (0x7B # 0x22 # tl (quote_string k) @ tail)
      = parse_members n [] (0x22 # tl (quote_string k) @ tail)"
    by (simp add: skip_ws_def is_json_ws_def)
  then show ?thesis
    by (subst (1 2) quote_string_Cons) simp
qed

lemma stringify_task:
  "JSON_stringify (json_of_task t) =
     0x7B # quote_string (lit ''id'') @ 0x3A # number_to_string (of_int (task_id t)) @
     0x2C # quote_string (lit ''text'') @ 0x3A # quote_string (task_text t) @
     0x2C # quote_string (lit ''completed'') @ 0x3A # JSON_stringify (JBool (completed t)) @
     0x2C # quote_string (lit ''category'') @ 0x3A # quote_string (category t) @
     0x2C # quote_string (lit ''dueDate'') @ 0x3A # JSON_stringify (json_of_option (dueDate t)) @
     0x2C # quote_string (lit ''dueTime'') @ 0x3A # JSON_stringify (json_of_option (dueTime t)) @
     [0x7D]"
  by (simp add: json_of_task_def)

lemma task_keys_distinct:
  "distinct [lit ''id'', lit ''text'', lit ''completed'', lit ''category'', lit ''dueDate'',
             lit ''dueTime'']"
  by (simp add: lit_def)

lemma parse_value_task:
  "parse_value (Suc (Suc (Suc (Suc (Suc (Suc (Suc (Suc m))))))))
     (JSON_stringify (json_of_task t) @ rest) = Some (json_of_task t, rest)"
proof -
  define s6 where "s6 = quote_string (lit ''dueTime'') @ 0x3A #
      JSON_stringify (json_of_option (dueTime t)) @ 0x7D # rest"
  define s5 where "s5 = quote_string (lit ''dueDate'') @ 0x3A #
      JSON_stringify (json_of_option (dueDate t)) @ 0x2C # s6"
  define s4 where "s4 = quote_string (lit ''category'') @ 0x3A #
      quote_string (category t) @ 0x2C # s5"
  define s3 where "s3 = quote_string (lit ''completed'') @ 0x3A #
      JSON_stringify (JBool (completed t)) @ 0x2C # s4"
  define s2 where "s2 = quote_string (lit ''text'') @ 0x3A #
      quote_string (task_text t) @ 0x2C # s3"
  define s1 where "s1 = quote_string (lit ''id'') @ 0x3A #
      number_to_string (of_int (task_id t)) @ 0x2C # s2"
  have whole: "JSON_stringify (json_of_task t) @ rest = 0x7B # s1"
    unfolding s1_def s2_def s3_def s4_def s5_def s6_def
    by (simp only: stringify_task append.simps append_assoc)
  have m6: "parse_members (Suc (Suc m)) acc s6
      = Some (JObj (set_member (lit ''dueTime'') (json_of_option (dueTime t)) acc), rest)" for acc
    unfolding s6_def
    by (subst parse_member [where v = "json_of_option (dueTime t)"])
       (simp_all add: parse_value_option del: parse_value.simps)
  have m5: "parse_members (Suc (Suc (Suc m))) acc s5
      = parse_members (Suc (Suc m)) (set_member (lit ''dueDate'') (json_of_option (dueDate t)) acc) s6"
    for acc
    unfolding s5_def
    by (subst parse_member [where v = "json_of_option (dueDate t)"])
       (simp_all add: parse_value_option del: parse_value.simps parse_members.simps)
  have m4: "parse_members (Suc (Suc (Suc (Suc m)))) acc s4
      = parse_members (Suc (Suc (Suc m))) (set_member (lit ''category'') (JStr (category t)) acc) s5"
    for acc
    unfolding s4_def
    by (subst parse_member [where v = "JStr (category t)"])
       (simp_all add: parse_value_string del: parse_value.simps parse_members.simps)
  have m3: "parse_members (Suc (Suc (Suc (Suc (Suc m))))) acc s3
      = parse_members (Suc (Suc (Suc (Suc m))))
          (set_member (lit ''completed'') (JBool (completed t)) acc) s4"
    for acc
    unfolding s3_def
    by (subst parse_member [where v = "JBool (completed t)"])
       (simp_all only: parse_value_bool if_True simp_thms)
  have m2: "parse_members (Suc (Suc (Suc (Suc (Suc (Suc m)))))) acc s2
      = parse_members (Suc (Suc (Suc (Suc (Suc m)))))
          (set_member (lit ''text'') (JStr (task_text t)) acc) s3"
    for acc
    unfolding s2_def
    by (subst parse_member [where v = "JStr (task_text t)"])
       (simp_all add: parse_value_string del: parse_value.simps parse_members.simps)
  have num: "parse_value (Suc (Suc (Suc (Suc (Suc (Suc m))))))
        (number_to_string (of_int (task_id t)) @ 0x2C # s2)
      = Some (JNum (of_int (task_id t)), 0x2C # s2)"
    by (rule parse_value_number) (simp add: closes_value_def)
  have m1: "parse_members (Suc (Suc (Suc (Suc (Suc (Suc (Suc m))))))) acc s1
      = parse_members (Suc (Suc (Suc (Suc (Suc (Suc m))))))
          (set_member (lit ''id'') (JNum (of_int (task_id t))) acc) s2"
    for acc
    unfolding s1_def
    by (subst parse_member [where v = "JNum (of_int (task_id t))"])
       (simp_all only: num if_True simp_thms)
  have members: "set_member (lit ''dueTime'') v6 (set_member (lit ''dueDate'') v5
      (set_member (lit ''category'') v4 (set_member (lit ''completed'') v3
      (set_member (lit ''text'') v2 (set_member (lit ''id'') v1 [])))))
      = [(lit ''id'', v1), (lit ''text'', v2), (lit ''completed'', v3), (lit ''category'', v4),
         (lit ''dueDate'', v5), (lit ''dueTime'', v6)]" for v1 v2 v3 v4 v5 v6
    using task_keys_distinct by simp
  have "parse_value (Suc (Suc (Suc (Suc (Suc (Suc (Suc (Suc m)))))))) (0x7B # s1)
      = parse_members (Suc (Suc (Suc (Suc (Suc (Suc (Suc m))))))) [] s1"
    unfolding s1_def by (rule parse_value_object_open)
  then show ?thesis
    unfolding whole
    by (simp only: m1 m2 m3 m4 m5 m6 members json_of_task_def)
qed

subsection \<open>Collections\<close>

lemma parse_value_task_fuel:
  assumes "8 \<le> n"
  shows "parse_value n (JSON_stringify (json_of_task t) @ rest) = Some (json_of_task t, rest)"
proof -
  from assms have "n = Suc (Suc (Suc (Suc (Suc (Suc (Suc (Suc (n - 8))))))))"
    by arith
  then show ?thesis by (metis parse_value_task)
qed

lemma task_text_opens: "\<exists>cs. JSON_stringify (json_of_task t) = 0x7B # cs"
  by (simp add: stringify_task)

lemma task_text_length: "9 \<le> length (JSON_stringify (json_of_task t))"
  by (simp add: stringify_task quote_string_def)

lemma parse_elements_tasks:
  "ts \<noteq> [] \<Longrightarrow> length ts + 8 \<le> n \<Longrightarrow>
   parse_elements n acc (join [0x2C] (map JSON_stringify (map json_of_task ts)) @ 0x5D # rest)
     = Some (JArr (rev acc @ map json_of_task ts), rest)"
proof (induction ts arbitrary: n acc)
  case Nil
  then show ?case by simp
next
  case (Cons t ts)
  from Cons.prems(2) obtain k where n: "n = Suc k" and k: "length ts + 8 \<le> k"
    by (cases n) auto
  from k have fuel: "8 \<le> k" by simp
  show ?case
  proof (cases ts)
    case Nil
    have "parse_value k (JSON_stringify (json_of_task t) @ 0x5D # rest)
        = Some (json_of_task t, 0x5D # rest)"
      using fuel by (rule parse_value_task_fuel)
    then show ?thesis
      using Nil n by (simp add: skip_ws_def is_json_ws_def)
  next
    case (Cons t' ts')
    have "parse_value k (JSON_stringify (json_of_task t) @
            0x2C # join [0x2C] (map JSON_stringify (map json_of_task ts)) @ 0x5D # rest)
        = Some (json_of_task t,
            0x2C # join [0x2C] (map JSON_stringify (map json_of_task ts)) @ 0x5D # rest)"
      using fuel by (rule parse_value_task_fuel)
    moreover have "parse_elements k (json_of_task t # acc)
          (join [0x2C] (map JSON_stringify (map json_of_task ts)) @ 0x5D # rest)
        = Some (JArr (rev (json_of_task t # acc) @ map json_of_task ts), rest)"
      using Cons k by (intro Cons.IH) simp_all
    ultimately show ?thesis
      using Cons n by (simp add: skip_ws_def is_json_ws_def)
  qed
qed

lemma join_length: "(\<forall>x \<in> set xs. 9 \<le> length x) \<Longrightarrow> 9 * length xs \<le> length (join sep xs)"
  by (induction sep xs rule: join.induct) auto

lemma parse_value_tasks:
  assumes "0 < n" and "ts \<noteq> [] \<longrightarrow> length ts + 9 \<le> n"
  shows "parse_value n (JSON_stringify (json_of_tasks ts) @ rest) = Some (json_of_tasks ts, rest)"
proof -
  from assms obtain k where n: "n = Suc k" and k: "ts \<noteq> [] \<longrightarrow> length ts + 8 \<le> k"
    by (cases n) auto
  show ?thesis
  proof (cases ts)
    case Nil
    then show ?thesis
      using n by (simp add: json_of_tasks_def skip_ws_def is_json_ws_def)
  next
    case (Cons t ts')
    obtain cs where opens: "JSON_stringify (json_of_task t) = 0x7B # cs"
      using task_text_opens by blast
    have "\<exists>d ds. join [0x2C] (map JSON_stringify (map json_of_task ts)) @ 0x5D # rest = d # ds
        \<and> d \<noteq> 0x5D \<and> \<not> is_json_ws d"
      using Cons opens by (cases ts') (simp_all add: is_json_ws_def)
    then obtain d ds where
      first: "join [0x2C] (map JSON_stringify (map json_of_task ts)) @ 0x5D # rest = d # ds"
      and d: "d \<noteq> 0x5D" "\<not> is_json_ws d"
      by blast
    have "parse_elements k [] (join [0x2C] (map JSON_stringify (map json_of_task ts)) @ 0x5D # rest)
        = Some (JArr (rev [] @ map json_of_task ts), rest)"
      using Cons k by (intro parse_elements_tasks) simp_all
    then have "parse_value (Suc k)
          (0x5B # join [0x2C] (map JSON_stringify (map json_of_task ts)) @ 0x5D # rest)
        = Some (JArr (map json_of_task ts), rest)"
      using first d
      by (simp add: skip_ws_def is_json_ws_def del: parse_elements.simps)
    then show ?thesis
      using n by (simp add: json_of_tasks_def del: parse_value.simps)
  qed
qed

lemma tasks_text_length:
  "ts \<noteq> [] \<Longrightarrow> length ts + 8 \<le> length (JSON_stringify (json_of_tasks ts))"
proof -
  assume "ts \<noteq> []"
  then have "0 < length ts" by simp
  moreover have "9 * length (map JSON_stringify (map json_of_task ts))
      \<le> length (join [0x2C] (map JSON_stringify (map json_of_task ts)))"
    by (rule join_length) (auto simp: task_text_length)
  ultimately show ?thesis
    by (cases ts) (simp_all add: json_of_tasks_def)
qed

lemma JSON_roundtrip_tasks:
  "JSON_parse (JSON_stringify (json_of_tasks ts)) = Inr (json_of_tasks ts)"
proof -
  have "parse_value (Suc (length (JSON_stringify (json_of_tasks ts))))
          (JSON_stringify (json_of_tasks ts) @ []) = Some (json_of_tasks ts, [])"
    using tasks_text_length [of ts] by (intro parse_value_tasks) auto
  then show ?thesis
    by (simp add: JSON_parse_def skip_ws_def del: parse_value.simps)
qed

section \<open>Saving and loading again\<close>

text \<open>The model of the platform writes the sample collection as the text above and reads it back.\<close>

lemma sample_stringify: "JSON_stringify (json_of_tasks sample_tasks) = sample_text"
  by code_simp

lemma sample_parse: "JSON_parse sample_text = Inr (json_of_tasks sample_tasks)"
  by code_simp

lemma tasks_text_nonempty: "JSON_stringify (json_of_tasks ts) \<noteq> []"
  by (simp add: json_of_tasks_def)

lemma save_then_load:
  assumes "parse (stringify v) = Inr v"
    and "stringify v \<noteq> []"
    and "tasks_value m = v"
    and "\<not> isFirstRender m"
  shows "tasks_value (load_effect parse (snd (save_effect stringify m st)) mounted) = v \<and>
         console (load_effect parse (snd (save_effect stringify m st)) mounted) = [] \<and>
         (\<forall>k. k \<noteq> lit ''tasks'' \<longrightarrow>
              getItem (snd (save_effect stringify m st)) k = getItem st k)"
  using assms
  by (simp add: load_effect_def save_effect_def getItem_def setItem_def mounted_def)

text \<open>
  C9. Let \<open>v\<close> be the collection that the load effect obtains from the storage. When the
  save effect has written \<open>v\<close> under the key, loading from the new storage yields \<open>v\<close> again
  and reports nothing, and the other keys of the storage are untouched. For an arbitrary
  value \<open>v\<close> this holds with any platform functions that read back what they write at
  \<open>v\<close>: \<open>JSON.parse (JSON.stringify v) = v\<close>, where \<open>JSON.stringify v\<close> is not the empty
  string. When \<open>v\<close> is a collection of task records, the model of the platform functions
  reads back what it writes, and the round trip holds outright.
\<close>

theorem save_load_roundtrip:
  "(v = tasks_value (load_effect parse st mounted) \<and>
    parse (stringify v) = Inr v \<and> stringify v \<noteq> [] \<and>
    tasks_value m = v \<and> \<not> isFirstRender m \<longrightarrow>
      tasks_value (load_effect parse (snd (save_effect stringify m st)) mounted) = v \<and>
      console (load_effect parse (snd (save_effect stringify m st)) mounted) = [] \<and>
      (\<forall>k. k \<noteq> lit ''tasks'' \<longrightarrow>
           getItem (snd (save_effect stringify m st)) k = getItem st k)) \<and>
   (json_of_tasks ts = tasks_value (load_effect JSON_parse st' mounted) \<and>
    tasks_value m' = json_of_tasks ts \<and> \<not> isFirstRender m' \<longrightarrow>
      tasks_value (load_effect JSON_parse (snd (save_effect JSON_stringify m' st')) mounted)
        = json_of_tasks ts \<and>
      console (load_effect JSON_parse (snd (save_effect JSON_stringify m' st')) mounted) = [] \<and>
      (\<forall>k. k \<noteq> lit ''tasks'' \<longrightarrow>
           getItem (snd (save_effect JSON_stringify m' st')) k = getItem st' k))"
proof (rule conjI; rule impI)
  assume "v = tasks_value (load_effect parse st mounted) \<and>
    parse (stringify v) = Inr v \<and> stringify v \<noteq> [] \<and>
    tasks_value m = v \<and> \<not> isFirstRender m"
  then show "tasks_value (load_effect parse (snd (save_effect stringify m st)) mounted) = v \<and>
      console (load_effect parse (snd (save_effect stringify m st)) mounted) = [] \<and>
      (\<forall>k. k \<noteq> lit ''tasks'' \<longrightarrow>
           getItem (snd (save_effect stringify m st)) k = getItem st k)"
    using save_then_load [of parse stringify v m st] by blast
next
  assume "json_of_tasks ts = tasks_value (load_effect JSON_parse st' mounted) \<and>
    tasks_value m' = json_of_tasks ts \<and> \<not> isFirstRender m'"
  then show "tasks_value (load_effect JSON_parse (snd (save_effect JSON_stringify m' st')) mounted)
        = json_of_tasks ts \<and>
      console (load_effect JSON_parse (snd (save_effect JSON_stringify m' st')) mounted) = [] \<and>
      (\<forall>k. k \<noteq> lit ''tasks'' \<longrightarrow>
           getItem (snd (save_effect JSON_stringify m' st')) k = getItem st' k)"
    using save_then_load [of JSON_parse JSON_stringify "json_of_tasks ts" m' st']
      JSON_roundtrip_tasks [of ts] tasks_text_nonempty [of ts]
    by blast
qed

theorem save_load_roundtrip_witness:
  "json_of_tasks [sample_tasks ! 0] =
     tasks_value (load_effect JSON_parse
                    (setItem Map.empty (lit ''tasks'') sample_text_spaced) mounted) \<and>
   JSON_parse (JSON_stringify (json_of_tasks [sample_tasks ! 0]))
     = Inr (json_of_tasks [sample_tasks ! 0]) \<and>
   JSON_stringify (json_of_tasks [sample_tasks ! 0]) \<noteq> [] \<and>
   tasks_value (load_effect JSON_parse
      (snd (save_effect JSON_stringify
              \<lparr>tasks_value = json_of_tasks [sample_tasks ! 0], isFirstRender = False,
               console = ([] :: (jsstring \<times> syntax_error) list)\<rparr>
              (setItem Map.empty (lit ''tasks'') sample_text_spaced)))
      mounted) = json_of_tasks [sample_tasks ! 0]"
proof -
  have parsed: "JSON_parse sample_text_spaced = Inr (json_of_tasks [sample_tasks ! 0])"
    by code_simp
  have nonempty: "sample_text_spaced \<noteq> []"
    by (simp add: sample_text_spaced_def lit_def)
  have loaded: "json_of_tasks [sample_tasks ! 0] =
     tasks_value (load_effect JSON_parse
                    (setItem Map.empty (lit ''tasks'') sample_text_spaced) mounted)"
    using parsed nonempty by (simp add: load_effect_def getItem_def setItem_def)
  have readback: "JSON_parse (JSON_stringify (json_of_tasks [sample_tasks ! 0]))
     = Inr (json_of_tasks [sample_tasks ! 0])"
    by code_simp
  have written: "JSON_stringify (json_of_tasks [sample_tasks ! 0]) \<noteq> []"
    by code_simp
  have cell: "tasks_value \<lparr>tasks_value = json_of_tasks [sample_tasks ! 0], isFirstRender = False,
               console = ([] :: (jsstring \<times> syntax_error) list)\<rparr> = json_of_tasks [sample_tasks ! 0]"
    by simp
  have later: "\<not> isFirstRender \<lparr>tasks_value = json_of_tasks [sample_tasks ! 0],
               isFirstRender = False, console = ([] :: (jsstring \<times> syntax_error) list)\<rparr>"
    by simp
  note both = save_load_roundtrip [where parse = JSON_parse and stringify = JSON_stringify
      and v = "json_of_tasks [sample_tasks ! 0]"
      and st = "setItem Map.empty (lit ''tasks'') sample_text_spaced"
      and m = "\<lparr>tasks_value = json_of_tasks [sample_tasks ! 0], isFirstRender = False,
               console = ([] :: (jsstring \<times> syntax_error) list)\<rparr>"
      and ts = "[sample_tasks ! 0]"
      and st' = "setItem Map.empty (lit ''tasks'') sample_text_spaced"
      and m' = "\<lparr>tasks_value = json_of_tasks [sample_tasks ! 0], isFirstRender = False,
               console = ([] :: (jsstring \<times> syntax_error) list)\<rparr>"]
  from both loaded readback written cell later
  have "tasks_value (load_effect JSON_parse
      (snd (save_effect JSON_stringify
              \<lparr>tasks_value = json_of_tasks [sample_tasks ! 0], isFirstRender = False,
               console = ([] :: (jsstring \<times> syntax_error) list)\<rparr>
              (setItem Map.empty (lit ''tasks'') sample_text_spaced)))
      mounted) = json_of_tasks [sample_tasks ! 0]"
    by blast
  with loaded readback written show ?thesis
    by (intro conjI)
qed

end
